theory Spec2Isabelle
  imports Complex_Main
begin

section \<open>JavaScript numbers and values\<close>

text \<open>
  The numbers of the program are JavaScript numbers, that is binary64 floating-point
  numbers: the finite ones are the reals \<open>m * 2 ^ e\<close> with integers \<open>\<bar>m\<bar> < 2 ^ 53\<close> and
  \<open>- 1074 \<le> e \<le> 971\<close>, next to them the two infinities and NaN. Every arithmetic
  operation rounds its exact result to the nearest such number, ties to the even
  mantissa, and overflows to an infinity. The sign of a zero is not modelled: every zero
  is the positive zero (the divisors of the program are sums of integers, never a
  negative zero).
\<close>

datatype jsnum = Fin real | PInf | NInf | NaN

text \<open>The infinity with the sign of \<open>a\<close>; NaN for \<open>a = 0\<close> (as in \<open>Infinity * 0\<close> and \<open>0 / 0\<close>).\<close>

definition signedInf :: "real \<Rightarrow> jsnum" where
  "signedInf a = (if a = 0 then NaN else if 0 < a then PInf else NInf)"

text \<open>
  The binary logarithm of a positive natural number, rounded down (\<open>log2floor\<close>) and
  rounded up (\<open>log2ceil\<close>), and the power \<open>2 ^ e\<close> for an integer \<open>e\<close>.
\<close>

fun log2floor :: "nat \<Rightarrow> nat" where
  "log2floor n = (if n < 2 then 0 else Suc (log2floor (n div 2)))"

declare log2floor.simps [simp del]

definition log2ceil :: "nat \<Rightarrow> nat" where
  "log2ceil n = (if n \<le> 1 then 0 else Suc (log2floor (n - 1)))"

definition pow2 :: "int \<Rightarrow> real" where
  "pow2 e = (if 0 \<le> e then 2 ^ nat e else 1 / 2 ^ nat (- e))"

text \<open>The binary exponent of \<open>x \<noteq> 0\<close>: the integer \<open>E\<close> with \<open>2 ^ E \<le> \<bar>x\<bar> < 2 ^ (E + 1)\<close>.\<close>

definition exponent :: "real \<Rightarrow> int" where
  "exponent x =
     (if 1 \<le> \<bar>x\<bar> then int (log2floor (nat \<lfloor>\<bar>x\<bar>\<rfloor>))
      else - int (log2ceil (nat \<lceil>1 / \<bar>x\<bar>\<rceil>)))"

text \<open>The nearest integer, a tie going to the even one.\<close>

definition roundEven :: "real \<Rightarrow> int" where
  "roundEven q =
     (let n = \<lfloor>q\<rfloor>; d = q - of_int n
      in if d < 1 / 2 then n else if 1 / 2 < d then n + 1 else if even n then n else n + 1)"

text \<open>
  Rounding to binary64: the unit of the last place is \<open>2 ^ (E - 52)\<close>, and \<open>2 ^ - 1074\<close>
  in the subnormal range; a rounded value of magnitude \<open>2 ^ 1024\<close> or more is an
  infinity.
\<close>

definition fl :: "real \<Rightarrow> jsnum" where
  "fl x =
     (if x = 0 then Fin 0
      else
        let e = max (exponent x - 52) (- 1074);
            y = of_int (roundEven (x / pow2 e)) * pow2 e
        in if 2 ^ 1024 \<le> \<bar>y\<bar> then signedInf x else Fin y)"

fun js_neg :: "jsnum \<Rightarrow> jsnum" where
  "js_neg (Fin a) = Fin (- a)"
| "js_neg PInf = NInf"
| "js_neg NInf = PInf"
| "js_neg NaN = NaN"

fun js_add :: "jsnum \<Rightarrow> jsnum \<Rightarrow> jsnum" where
  "js_add (Fin a) (Fin b) = fl (a + b)"
| "js_add NaN y = NaN"
| "js_add x NaN = NaN"
| "js_add PInf NInf = NaN"
| "js_add NInf PInf = NaN"
| "js_add PInf y = PInf"
| "js_add x PInf = PInf"
| "js_add NInf y = NInf"
| "js_add x NInf = NInf"

definition js_sub :: "jsnum \<Rightarrow> jsnum \<Rightarrow> jsnum" where
  "js_sub x y = js_add x (js_neg y)"

fun js_mul :: "jsnum \<Rightarrow> jsnum \<Rightarrow> jsnum" where
  "js_mul (Fin a) (Fin b) = fl (a * b)"
| "js_mul NaN y = NaN"
| "js_mul x NaN = NaN"
| "js_mul PInf (Fin b) = signedInf b"
| "js_mul (Fin a) PInf = signedInf a"
| "js_mul NInf (Fin b) = signedInf (- b)"
| "js_mul (Fin a) NInf = signedInf (- a)"
| "js_mul PInf PInf = PInf"
| "js_mul NInf NInf = PInf"
| "js_mul PInf NInf = NInf"
| "js_mul NInf PInf = NInf"

fun js_div :: "jsnum \<Rightarrow> jsnum \<Rightarrow> jsnum" where
  "js_div (Fin a) (Fin b) = (if b = 0 then signedInf a else fl (a / b))"
| "js_div NaN y = NaN"
| "js_div x NaN = NaN"
| "js_div (Fin a) PInf = Fin 0"
| "js_div (Fin a) NInf = Fin 0"
| "js_div PInf (Fin b) = (if 0 \<le> b then PInf else NInf)"
| "js_div NInf (Fin b) = (if 0 \<le> b then NInf else PInf)"
| "js_div PInf PInf = NaN"
| "js_div PInf NInf = NaN"
| "js_div NInf PInf = NaN"
| "js_div NInf NInf = NaN"

text \<open>The comparison \<open>x < y\<close>; \<open>x > y\<close> of the source is \<open>js_lt y x\<close>. NaN compares false.\<close>

fun js_lt :: "jsnum \<Rightarrow> jsnum \<Rightarrow> bool" where
  "js_lt (Fin a) (Fin b) = (a < b)"
| "js_lt NaN y = False"
| "js_lt x NaN = False"
| "js_lt PInf y = False"
| "js_lt x NInf = False"
| "js_lt NInf y = True"
| "js_lt x PInf = True"

text \<open>
  A value that is \<open>undefined\<close>, \<open>null\<close> or a number: \<open>calculateEMA\<close> returns \<open>null\<close>
  or a number, and reading a missing key of an object gives \<open>undefined\<close>.
\<close>

datatype jsval = Undefined | Null | Number jsnum

text \<open>
  Truthiness, as \<open>!ema\<close> tests it: \<open>undefined\<close>, \<open>null\<close>, zero and NaN are falsy, every
  other number is truthy.
\<close>

fun truthy :: "jsval \<Rightarrow> bool" where
  "truthy Undefined = False"
| "truthy Null = False"
| "truthy (Number (Fin a)) = (a \<noteq> 0)"
| "truthy (Number NaN) = False"
| "truthy (Number PInf) = True"
| "truthy (Number NInf) = True"

text \<open>The number a value stands for in a comparison: \<open>null\<close> is 0, \<open>undefined\<close> is NaN.\<close>

fun toNum :: "jsval \<Rightarrow> jsnum" where
  "toNum Undefined = NaN"
| "toNum Null = Fin 0"
| "toNum (Number x) = x"

section \<open>calculateEMA\<close>

text \<open>
  \<open>prices[i]\<close>: a read outside the array gives \<open>undefined\<close>, which the arithmetic
  around it turns into NaN.
\<close>

definition elemAt :: "jsnum list \<Rightarrow> int \<Rightarrow> jsnum" where
  "elemAt prices i = (if 0 \<le> i \<and> i < int (length prices) then prices ! nat i else NaN)"

text \<open>\<open>for (let i = 0; i < period; i++) sum += prices[i]\<close>, from \<open>i\<close> on.\<close>

function seedLoop :: "jsnum list \<Rightarrow> int \<Rightarrow> int \<Rightarrow> jsnum \<Rightarrow> jsnum" where
  "seedLoop prices period i sm =
     (if i < period then seedLoop prices period (i + 1) (js_add sm (elemAt prices i)) else sm)"
  by pat_completeness auto
termination
  by (relation "measure (\<lambda>(prices, period, i, sm). nat (period - i))") auto

text \<open>The update of the second loop: \<open>prices[i] * k + ema * (1 - k)\<close>, for \<open>p = prices[i]\<close>.\<close>

definition emaUpdate :: "jsnum \<Rightarrow> jsnum \<Rightarrow> jsnum \<Rightarrow> jsnum" where
  "emaUpdate k ema p = js_add (js_mul p k) (js_mul ema (js_sub (Fin 1) k))"

text \<open>
  \<open>for (let i = period; i < prices.length; i++) ema = prices[i] * k + ema * (1 - k)\<close>,
  from \<open>i\<close> on.
\<close>

function smoothLoop :: "jsnum list \<Rightarrow> jsnum \<Rightarrow> int \<Rightarrow> jsnum \<Rightarrow> jsnum" where
  "smoothLoop prices k i ema =
     (if i < int (length prices)
      then smoothLoop prices k (i + 1) (emaUpdate k ema (elemAt prices i))
      else ema)"
  by pat_completeness auto
termination
  by (relation "measure (\<lambda>(prices, k, i, ema). nat (int (length prices) - i))") auto

declare seedLoop.simps [simp del] smoothLoop.simps [simp del]

text \<open>\<open>k = 2 / (period + 1)\<close>.\<close>

definition smoothing :: "int \<Rightarrow> jsnum" where
  "smoothing period = js_div (Fin 2) (js_add (Fin (real_of_int period)) (Fin 1))"

definition calculateEMA :: "jsnum list \<Rightarrow> int \<Rightarrow> jsval" where
  "calculateEMA prices period =
     (if int (length prices) < period then Null
      else
        let k = smoothing period;
            sm = seedLoop prices period 0 (Fin 0);
            ema = js_div sm (Fin (real_of_int period))
        in Number (smoothLoop prices k period ema))"

section \<open>The EMA values of fetchMarketData\<close>

definition emaPeriods :: "int list" where
  "emaPeriods = [7, 9, 20, 25, 50, 100, 200]"

text \<open>
  \<open>for (const period of emaPeriods) emaValues[period] = prices.length >= period ?
  calculateEMA(prices, period) : null\<close>, over the periods that remain; the object
  \<open>emaValues\<close> is a map from the period to its entry.
\<close>

fun emaValuesLoop :: "jsnum list \<Rightarrow> int list \<Rightarrow> (int \<rightharpoonup> jsval) \<Rightarrow> (int \<rightharpoonup> jsval)" where
  "emaValuesLoop prices [] emaValues = emaValues"
| "emaValuesLoop prices (period # rest) emaValues =
     emaValuesLoop prices rest
       (emaValues(period \<mapsto>
          (if int (length prices) \<ge> period then calculateEMA prices period else Null)))"

record emaResults =
  currentPrice :: jsnum
  emas :: "int \<rightharpoonup> jsval"

text \<open>
  The fields of \<open>emaResults\<close> that the signals read, as \<open>fetchMarketData\<close> sets them
  from the prices: \<open>currentPrice = prices[prices.length - 1]\<close> and \<open>emas = emaValues\<close>.
\<close>

definition computeEmaResults :: "jsnum list \<Rightarrow> emaResults" where
  "computeEmaResults prices =
     \<lparr> currentPrice = elemAt prices (int (length prices) - 1),
       emas = emaValuesLoop prices emaPeriods Map.empty \<rparr>"


section \<open>getPricePosition and the signal summary\<close>

definition getPricePosition :: "jsnum \<Rightarrow> jsval \<Rightarrow> string" where
  "getPricePosition price ema =
     (if \<not> truthy ema then ''unknown''
      else if js_lt (toNum ema) price then ''above''
      else if js_lt price (toNum ema) then ''below''
      else ''equal'')"





section \<open>fetchWithRetry\<close>

text \<open>What the program throws: a JavaScript error with its message.\<close>

datatype exn = Error string | TypeError string | SyntaxError string

text \<open>
  The response of \<open>fetch\<close>, as far as the program reads it: \<open>retryAfter\<close> is
  \<open>response.headers.get('Retry-After')\<close> (\<open>None\<close> for \<open>null\<close>), \<open>json\<close> is what
  \<open>response.json()\<close> settles to (\<open>Inl\<close> when it rejects).
\<close>

record 'a response =
  status :: nat
  statusText :: string
  retryAfter :: "string option"
  json :: "exn + 'a"

text \<open>\<open>response.ok\<close>: the status is in the range 200 to 299.\<close>

definition ok :: "'a response \<Rightarrow> bool" where
  "ok r = (200 \<le> status r \<and> status r \<le> 299)"

text \<open>One call of \<open>fetch\<close> rejects (a network failure) or resolves to a response.\<close>

datatype 'a outcome = Rejected exn | Resolved "'a response"

text \<open>The effects of a run, in order: the requests issued and the delays awaited (in ms).\<close>

datatype event = Fetch string | Delay jsnum

text \<open>How one pass of the loop body ends, and how the whole call ends.\<close>

datatype 'a control = Continue | Return 'a | Throw exn

datatype 'a completion = Returned 'a | ReturnedUndefined | Thrown exn

text \<open>The decimal numeral of a status, as the template string prints it.\<close>

fun showNat :: "nat \<Rightarrow> string" where
  "showNat n =
     (if n < 10 then [''0123456789'' ! n]
      else showNat (n div 10) @ [''0123456789'' ! (n mod 10)])"

declare showNat.simps [simp del]

text \<open>
  The coercion of a string made of decimal digits to a number. It agrees with the
  language on such strings; the other numeric forms of the language (sign, fraction,
  exponent, blanks, other bases) are not covered, so \<open>fetchWithRetry\<close> takes the coercion
  of header values as the parameter \<open>toNumber\<close>.
\<close>

fun digitsValue :: "string \<Rightarrow> nat \<Rightarrow> nat option" where
  "digitsValue [] acc = Some acc"
| "digitsValue (c # cs) acc =
     (if c \<in> set ''0123456789''
      then digitsValue cs (10 * acc + (of_char c - 48))
      else None)"

definition digitsToNumber :: "string \<Rightarrow> jsnum" where
  "digitsToNumber s = (case digitsValue s 0 of None \<Rightarrow> NaN | Some n \<Rightarrow> Fin (real n))"

text \<open>
  \<open>backoff * Math.pow(2, i)\<close>, taken exactly: a product with a power of two is not
  rounded in binary64 short of overflow and underflow.
\<close>

definition backoffDelay :: "real \<Rightarrow> nat \<Rightarrow> jsnum" where
  "backoffDelay backoff i = Fin (backoff * 2 ^ i)"

text \<open>
  \<open>retryAfter * 1000\<close>, seconds to milliseconds. The product is taken exactly: the
  delays of the program are whole numbers of seconds and of milliseconds far below
  \<open>2 ^ 53\<close>, where binary64 does not round them.
\<close>

fun toMs :: "jsnum \<Rightarrow> jsnum" where
  "toMs (Fin a) = Fin (a * 1000)"
| "toMs PInf = PInf"
| "toMs NInf = NInf"
| "toMs NaN = NaN"

text \<open>
  \<open>response.headers.get('Retry-After') || backoff * Math.pow(2, i)\<close>: the header when it
  is a non-empty string, else the computed value; the product with 1000 that follows
  coerces a string to a number.
\<close>

definition retryAfterOr :: "(string \<Rightarrow> jsnum) \<Rightarrow> string option \<Rightarrow> jsnum \<Rightarrow> jsnum" where
  "retryAfterOr toNumber header fallback =
     (case header of
        None \<Rightarrow> fallback
      | Some s \<Rightarrow> if s = [] then fallback else toNumber s)"

text \<open>
  The \<open>try\<close> block of pass \<open>i\<close>, given what \<open>fetch\<close> settles to: its effects, and either
  the error it throws (\<open>Inl\<close>) or how it leaves the pass.
\<close>

definition tryBlock ::
  "(string \<Rightarrow> jsnum) \<Rightarrow> 'a outcome \<Rightarrow> string \<Rightarrow> real \<Rightarrow> nat \<Rightarrow> event list \<times> (exn + 'a control)" where
  "tryBlock toNumber out url backoff i =
     (case out of
        Rejected err \<Rightarrow> ([Fetch url], Inl err)
      | Resolved response \<Rightarrow>
          if status response = 429 then
            let retryAfterValue = retryAfterOr toNumber (retryAfter response) (backoffDelay backoff i)
            in ([Fetch url, Delay (toMs retryAfterValue)], Inr Continue)
          else if \<not> ok response then
            ([Fetch url],
             Inl (Error (''HTTP '' @ showNat (status response) @ '': '' @ statusText response)))
          else
            (case json response of
               Inl err \<Rightarrow> ([Fetch url], Inl err)
             | Inr body \<Rightarrow> ([Fetch url], Inr (Return body))))"

text \<open>
  Pass \<open>i\<close> of the loop: the \<open>try\<close> block and its \<open>catch\<close>, which rethrows on the last
  pass and otherwise awaits \<open>backoff * Math.pow(2, i)\<close> and goes on.
\<close>

definition attempt ::
  "(string \<Rightarrow> jsnum) \<Rightarrow> 'a outcome \<Rightarrow> string \<Rightarrow> int \<Rightarrow> real \<Rightarrow> nat \<Rightarrow> event list \<times> 'a control" where
  "attempt toNumber out url retries backoff i =
     (case tryBlock toNumber out url backoff i of
        (evs, Inr c) \<Rightarrow> (evs, c)
      | (evs, Inl err) \<Rightarrow>
          if int i = retries - 1 then (evs, Throw err)
          else (evs @ [Delay (backoffDelay backoff i)], Continue))"

text \<open>
  \<open>for (let i = 0; i < retries; i++) { ... }\<close> from pass \<open>i\<close> on; \<open>network i\<close> is what
  the \<open>fetch\<close> of pass \<open>i\<close> settles to. Leaving the loop at its end, the function returns
  \<open>undefined\<close>.
\<close>

function fetchLoop ::
  "(string \<Rightarrow> jsnum) \<Rightarrow> (nat \<Rightarrow> 'a outcome) \<Rightarrow> string \<Rightarrow> int \<Rightarrow> real \<Rightarrow> nat
     \<Rightarrow> event list \<times> 'a completion" where
  "fetchLoop toNumber network url retries backoff i =
     (if int i < retries then
        (case attempt toNumber (network i) url retries backoff i of
           (evs, Continue) \<Rightarrow>
             (case fetchLoop toNumber network url retries backoff (i + 1) of
                (evs', c) \<Rightarrow> (evs @ evs', c))
         | (evs, Return body) \<Rightarrow> (evs, Returned body)
         | (evs, Throw err) \<Rightarrow> (evs, Thrown err))
      else ([], ReturnedUndefined))"
  by pat_completeness auto
termination
  by (relation "measure (\<lambda>(toNumber, network, url, retries, backoff, i). nat (retries - int i))") auto

declare fetchLoop.simps [simp del]

definition fetchWithRetry ::
  "(string \<Rightarrow> jsnum) \<Rightarrow> (nat \<Rightarrow> 'a outcome) \<Rightarrow> string \<Rightarrow> int \<Rightarrow> real \<Rightarrow> event list \<times> 'a completion" where
  "fetchWithRetry toNumber network url retries backoff =
     fetchLoop toNumber network url retries backoff 0"

text \<open>The requests and the delays of a run.\<close>

fun isFetch :: "event \<Rightarrow> bool" where
  "isFetch (Fetch u) = True"
| "isFetch (Delay ms) = False"

fun isDelay :: "event \<Rightarrow> bool" where
  "isDelay (Fetch u) = False"
| "isDelay (Delay ms) = True"

section \<open>Rounding: the exponent and the nearest value\<close>

text \<open>
  The rounding function does what its definition says: \<open>exponent\<close> is the binary
  exponent, and a finite result of \<open>fl\<close> lies within half a unit of the last place of
  the exact value.
\<close>

lemma log2floor_bounds:
  "0 < n \<Longrightarrow> 2 ^ log2floor n \<le> n \<and> n < 2 ^ Suc (log2floor n)"
proof (induction n rule: log2floor.induct)
  case (1 n)
  show ?case
  proof (cases "n < 2")
    case True
    with 1(2) have "n = 1" by simp
    then show ?thesis by (simp add: log2floor.simps)
  next
    case False
    then have pos: "0 < n div 2" by simp
    have ih: "2 ^ log2floor (n div 2) \<le> n div 2 \<and> n div 2 < 2 ^ Suc (log2floor (n div 2))"
      using 1(1)[OF False pos] .
    have e: "log2floor n = Suc (log2floor (n div 2))"
      using False by (subst log2floor.simps) simp
    have "2 * 2 ^ log2floor (n div 2) \<le> n" using ih by linarith
    moreover have "n < 2 * 2 ^ Suc (log2floor (n div 2))" using ih by linarith
    ultimately show ?thesis by (simp add: e)
  qed
qed

lemma log2ceil_bounds:
  assumes "2 \<le> n"
  shows "n \<le> 2 ^ log2ceil n \<and> 2 ^ (log2ceil n - 1) < n"
proof -
  have p: "0 < n - 1" using assms by simp
  have e: "log2ceil n = Suc (log2floor (n - 1))" using assms by (simp add: log2ceil_def)
  from log2floor_bounds[OF p] show ?thesis unfolding e by auto
qed

lemma real_pow2_le: "2 ^ k \<le> (n::nat) \<Longrightarrow> (2::real) ^ k \<le> real n"
proof -
  assume "2 ^ k \<le> n"
  then have "real (2 ^ k) \<le> real n" by (rule of_nat_mono)
  then show ?thesis by simp
qed

lemma real_le_pow2: "(n::nat) \<le> 2 ^ k \<Longrightarrow> real n \<le> (2::real) ^ k"
proof -
  assume "n \<le> 2 ^ k"
  then have "real n \<le> real (2 ^ k)" by (rule of_nat_mono)
  then show ?thesis by simp
qed

lemma exponent_bounds:
  assumes "x \<noteq> 0"
  shows "pow2 (exponent x) \<le> \<bar>x\<bar> \<and> \<bar>x\<bar> < pow2 (exponent x + 1)"
proof (cases "1 \<le> \<bar>x\<bar>")
  case True
  define n where "n = nat \<lfloor>\<bar>x\<bar>\<rfloor>"
  have fpos: "1 \<le> \<lfloor>\<bar>x\<bar>\<rfloor>" using True by linarith
  have rn: "real n = of_int \<lfloor>\<bar>x\<bar>\<rfloor>" using fpos by (simp add: n_def)
  have n1: "0 < n" using fpos unfolding n_def by linarith
  have lo: "real n \<le> \<bar>x\<bar>" unfolding rn by (rule of_int_floor_le)
  have hi: "\<bar>x\<bar> < real n + 1" unfolding rn by linarith
  have b: "2 ^ log2floor n \<le> n" "n < 2 ^ Suc (log2floor n)"
    using log2floor_bounds[OF n1] by simp_all
  have b1: "(2::real) ^ log2floor n \<le> real n" using b(1) by (rule real_pow2_le)
  have "n + 1 \<le> 2 ^ Suc (log2floor n)" using b(2) by simp
  then have "real (n + 1) \<le> (2::real) ^ Suc (log2floor n)" by (rule real_le_pow2)
  then have b2: "real n + 1 \<le> (2::real) ^ Suc (log2floor n)" by simp
  have e: "exponent x = int (log2floor n)" using True by (simp add: exponent_def n_def)
  have p1: "pow2 (exponent x) = 2 ^ log2floor n"
    by (simp add: e pow2_def)
  have p2: "pow2 (exponent x + 1) = 2 ^ Suc (log2floor n)"
    by (simp add: e pow2_def nat_add_distrib)
  have "2 ^ log2floor n \<le> \<bar>x\<bar>" using b1 lo by linarith
  moreover have "\<bar>x\<bar> < 2 ^ Suc (log2floor n)" using b2 hi by linarith
  ultimately show ?thesis by (simp only: p1 p2)
next
  case False
  define r where "r = 1 / \<bar>x\<bar>"
  define n where "n = nat \<lceil>r\<rceil>"
  define K where "K = log2ceil n"
  have xpos: "0 < \<bar>x\<bar>" using assms by simp
  have r1: "1 < r" using False xpos by (simp add: r_def)
  have cpos: "2 \<le> \<lceil>r\<rceil>" using r1 by linarith
  have rn: "real n = of_int \<lceil>r\<rceil>" using cpos by (simp add: n_def)
  have n2: "2 \<le> n" using cpos unfolding n_def by linarith
  have lo: "r \<le> real n" unfolding rn by (rule le_of_int_ceiling)
  have hi: "real n < r + 1" unfolding rn by linarith
  have b: "n \<le> 2 ^ K" "2 ^ (K - 1) < n"
    using log2ceil_bounds[OF n2] by (simp_all add: K_def)
  have k1: "1 \<le> K" using n2 by (simp add: K_def log2ceil_def)
  have b1: "real n \<le> (2::real) ^ K" using b(1) by (rule real_le_pow2)
  have "2 ^ (K - 1) \<le> n - 1" using b(2) by simp
  then have "(2::real) ^ (K - 1) \<le> real (n - 1)" by (rule real_pow2_le)
  then have b2: "(2::real) ^ (K - 1) + 1 \<le> real n" using n2 by (simp add: of_nat_diff)
  have e: "exponent x = - int K" using False by (simp add: exponent_def n_def r_def K_def)
  have u: "r \<le> 2 ^ K" using lo b1 by linarith
  have l: "(2::real) ^ (K - 1) < r" using hi b2 by linarith
  have x1: "1 / 2 ^ K \<le> \<bar>x\<bar>"
  proof -
    have "1 / 2 ^ K \<le> 1 / r" using u r1 by (intro divide_left_mono) simp_all
    then show ?thesis by (simp add: r_def)
  qed
  have x2: "\<bar>x\<bar> < 1 / 2 ^ (K - 1)"
  proof -
    have "1 / r < 1 / 2 ^ (K - 1)" using l r1 by (intro divide_strict_left_mono) simp_all
    then show ?thesis by (simp add: r_def)
  qed
  have p1: "pow2 (exponent x) = 1 / 2 ^ K"
    using k1 by (simp add: e pow2_def)
  have p2: "pow2 (exponent x + 1) = 1 / 2 ^ (K - 1)"
  proof (cases "K = 1")
    case True
    then show ?thesis by (simp add: e pow2_def)
  next
    case False
    then have k2: "2 \<le> K" using k1 by simp
    then have "nat (int K - 1) = K - 1" by simp
    then show ?thesis using k2 by (simp add: e pow2_def)
  qed
  show ?thesis using x1 x2 by (simp only: p1 p2)
qed

lemma roundEven_nearest: "\<bar>real_of_int (roundEven q) - q\<bar> \<le> 1 / 2"
  by (simp add: roundEven_def Let_def)

lemma pow2_pos: "0 < pow2 e"
  by (simp add: pow2_def)

lemma fl_nearest:
  assumes "fl x = Fin y"
  shows "\<bar>y - x\<bar> \<le> pow2 (max (exponent x - 52) (- 1074)) / 2"
proof (cases "x = 0")
  case True
  then have "y = 0" using assms by (simp add: fl_def)
  then show ?thesis using True pow2_pos[of "max (exponent x - 52) (- 1074)"] by simp
next
  case False
  define u where "u = pow2 (max (exponent x - 52) (- 1074))"
  have upos: "0 < u" unfolding u_def by (rule pow2_pos)
  have y: "y = of_int (roundEven (x / u)) * u"
    using assms False by (simp add: fl_def Let_def u_def signedInf_def split: if_splits)
  have "\<bar>of_int (roundEven (x / u)) - x / u\<bar> * u \<le> 1 / 2 * u"
    using roundEven_nearest[of "x / u"] upos by (intro mult_right_mono) simp_all
  moreover have "\<bar>of_int (roundEven (x / u)) - x / u\<bar> * u = \<bar>y - x\<bar>"
  proof -
    have "\<bar>of_int (roundEven (x / u)) - x / u\<bar> * u = \<bar>(of_int (roundEven (x / u)) - x / u) * u\<bar>"
      using upos by (simp add: abs_mult)
    also have "(of_int (roundEven (x / u)) - x / u) * u = y - x"
      using upos by (simp add: y left_diff_distrib)
    finally show ?thesis .
  qed
  ultimately show ?thesis by (simp add: u_def)
qed

section \<open>calculateEMA: the two loops as folds\<close>

lemma elemAt_nth: "0 \<le> i \<Longrightarrow> i < int (length prices) \<Longrightarrow> elemAt prices i = prices ! nat i"
  by (simp add: elemAt_def)

lemma drop_nat_step:
  assumes "0 \<le> i" "i < int (length prices)"
  shows "drop (nat i) prices = prices ! nat i # drop (nat (i + 1)) prices"
proof -
  have "nat i < length prices" using assms by linarith
  moreover have "nat (i + 1) = Suc (nat i)" using assms(1) by linarith
  ultimately show ?thesis by (simp add: Cons_nth_drop_Suc)
qed

lemma seedLoop_foldl:
  "0 \<le> i \<Longrightarrow> i \<le> period \<Longrightarrow> period \<le> int (length prices) \<Longrightarrow>
   seedLoop prices period i sm = foldl js_add sm (take (nat (period - i)) (drop (nat i) prices))"
proof (induction prices period i sm rule: seedLoop.induct)
  case (1 prices period i sm)
  show ?case
  proof (cases "i < period")
    case True
    have lt: "i < int (length prices)" using True 1(4) by linarith
    have n: "nat (period - i) = Suc (nat (period - (i + 1)))" using True by linarith
    have "seedLoop prices period i sm = seedLoop prices period (i + 1) (js_add sm (elemAt prices i))"
      using True by (subst seedLoop.simps) simp
    also have "\<dots> = foldl js_add (js_add sm (elemAt prices i))
                      (take (nat (period - (i + 1))) (drop (nat (i + 1)) prices))"
      using 1(1)[OF True] 1(2,4) True by simp
    also have "\<dots> = foldl js_add sm (take (nat (period - i)) (drop (nat i) prices))"
      by (simp only: n drop_nat_step[OF 1(2) lt] elemAt_nth[OF 1(2) lt] take_Suc_Cons foldl_Cons)
    finally show ?thesis .
  next
    case False
    then have "i = period" using 1(3) by simp
    then show ?thesis by (subst seedLoop.simps) simp
  qed
qed

lemma smoothLoop_foldl:
  "0 \<le> i \<Longrightarrow> smoothLoop prices k i ema = foldl (emaUpdate k) ema (drop (nat i) prices)"
proof (induction prices k i ema rule: smoothLoop.induct)
  case (1 prices k i ema)
  show ?case
  proof (cases "i < int (length prices)")
    case True
    have "smoothLoop prices k i ema = smoothLoop prices k (i + 1) (emaUpdate k ema (elemAt prices i))"
      using True by (subst smoothLoop.simps) simp
    also have "\<dots> = foldl (emaUpdate k) (emaUpdate k ema (elemAt prices i)) (drop (nat (i + 1)) prices)"
      using 1(1)[OF True] 1(2) by simp
    also have "\<dots> = foldl (emaUpdate k) ema (drop (nat i) prices)"
      by (simp only: drop_nat_step[OF 1(2) True] elemAt_nth[OF 1(2) True] foldl_Cons)
    finally show ?thesis .
  next
    case False
    then show ?thesis by (subst smoothLoop.simps) simp
  qed
qed

lemmas fl_eval =
  fl_def exponent_def roundEven_def pow2_def log2floor.simps log2ceil_def signedInf_def Let_def

lemmas calculateEMA_eval =
  calculateEMA_def seedLoop.simps smoothLoop.simps elemAt_def smoothing_def emaUpdate_def
  js_sub_def

text \<open>
  Claim C1, amended. For every series \<open>S\<close> and every positive integer period \<open>P\<close>:
  \<open>calculateEMA\<close> returns \<open>null\<close> when \<open>S\<close> has fewer than \<open>P\<close> prices; otherwise it returns
  the value obtained in the arithmetic of the program, where every operation rounds, by
  adding the first \<open>P\<close> prices from left to right and dividing by \<open>P\<close> for the seed, setting
  \<open>k = 2 / (P + 1)\<close>, and folding the update \<open>p * k + ema * (1 - k)\<close> over the later prices
  from left to right. For a series of exactly \<open>P\<close> prices the result is that rounded sum
  divided by \<open>P\<close>.
\<close>

theorem calculateEMA_spec:
  assumes "0 < P"
  shows "calculateEMA S P =
           (if int (length S) < P then Null
            else
              let k = js_div (Fin 2) (js_add (Fin (real_of_int P)) (Fin 1));
                  seed = js_div (foldl js_add (Fin 0) (take (nat P) S)) (Fin (real_of_int P))
              in Number (foldl (\<lambda>ema p. js_add (js_mul p k) (js_mul ema (js_sub (Fin 1) k)))
                           seed (drop (nat P) S)))
         \<and> (int (length S) = P \<longrightarrow>
              calculateEMA S P =
                Number (js_div (foldl js_add (Fin 0) S) (Fin (real_of_int P))))"
proof (cases "int (length S) < P")
  case True
  then show ?thesis by (simp add: calculateEMA_def)
next
  case False
  then have le: "P \<le> int (length S)" by simp
  have seed: "seedLoop S P 0 (Fin 0) = foldl js_add (Fin 0) (take (nat P) S)"
    using seedLoop_foldl[of 0 P S "Fin 0"] assms le by simp
  have upd: "emaUpdate k = (\<lambda>ema p. js_add (js_mul p k) (js_mul ema (js_sub (Fin 1) k)))" for k
    by (rule ext, rule ext) (simp add: emaUpdate_def)
  have sm: "smoothLoop S k P e
            = foldl (\<lambda>ema p. js_add (js_mul p k) (js_mul ema (js_sub (Fin 1) k))) e (drop (nat P) S)"
    for k e
    using smoothLoop_foldl[of P S k e] assms by (simp add: upd)
  have a: "calculateEMA S P =
             (let k = js_div (Fin 2) (js_add (Fin (real_of_int P)) (Fin 1));
                  seed = js_div (foldl js_add (Fin 0) (take (nat P) S)) (Fin (real_of_int P))
              in Number (foldl (\<lambda>ema p. js_add (js_mul p k) (js_mul ema (js_sub (Fin 1) k)))
                           seed (drop (nat P) S)))"
    using False by (simp only: calculateEMA_def smoothing_def Let_def seed sm if_False)
  have b: "calculateEMA S P = Number (js_div (foldl js_add (Fin 0) S) (Fin (real_of_int P)))"
    if "int (length S) = P"
  proof -
    have "nat P = length S" using that by simp
    then show ?thesis by (simp only: a Let_def take_all order_refl drop_all foldl_Nil)
  qed
  show ?thesis using False a b by simp
qed

theorem calculateEMA_spec_witness:
  "calculateEMA (map Fin [1, 2, 3, 4, 5, 6, 7, 8]) 7 = Number (Fin 5)
   \<and> calculateEMA (map Fin [1, 2, 3, 4, 5, 6, 7]) 7 = Number (Fin 4)
   \<and> calculateEMA (map Fin [1, 2, 3]) 7 = Null"
proof -
  have p: "(0::int) < 7" by simp
  show ?thesis
    using calculateEMA_spec[OF p, of "map Fin [1, 2, 3, 4, 5, 6, 7, 8]"]
          calculateEMA_spec[OF p, of "map Fin [1, 2, 3, 4, 5, 6, 7]"]
          calculateEMA_spec[OF p, of "map Fin [1, 2, 3]"]
    by (simp add: js_sub_def fl_eval)
qed

text \<open>
  The claim as stated fails where the sum rounds. The price 0.1 is the binary64 number
  \<open>3602879701896397 / 2 ^ 55\<close>; for seven such prices and the period 7 the program
  returns \<open>7205759403792793 / 2 ^ 56\<close> (printed 0.09999999999999999), which is not their
  mean.
\<close>

theorem calculateEMA_mean_rounded:
  "fl (1 / 10) = Fin (3602879701896397 / 36028797018963968)
   \<and> calculateEMA
        [Fin (3602879701896397 / 36028797018963968), Fin (3602879701896397 / 36028797018963968),
         Fin (3602879701896397 / 36028797018963968), Fin (3602879701896397 / 36028797018963968),
         Fin (3602879701896397 / 36028797018963968), Fin (3602879701896397 / 36028797018963968),
         Fin (3602879701896397 / 36028797018963968)] 7
      = Number (Fin (7205759403792793 / 72057594037927936))
   \<and> sum_list
        [3602879701896397 / 36028797018963968, 3602879701896397 / 36028797018963968,
         3602879701896397 / 36028797018963968, 3602879701896397 / 36028797018963968,
         3602879701896397 / 36028797018963968, 3602879701896397 / 36028797018963968,
         3602879701896397 / 36028797018963968] / 7
      = (3602879701896397 / 36028797018963968 :: real)
   \<and> (7205759403792793 / 72057594037927936 :: real) \<noteq> 3602879701896397 / 36028797018963968"
  by (simp add: calculateEMA_eval fl_eval)

section \<open>calculateEMA: one more price\<close>

lemma elemAt_append: "i < int (length prices) \<Longrightarrow> elemAt (prices @ [p]) i = elemAt prices i"
  by (auto simp: elemAt_def nth_append)

lemma elemAt_last: "elemAt (prices @ [p]) (int (length prices)) = p"
  by (simp add: elemAt_def)

lemma seedLoop_append:
  "period \<le> int (length prices) \<Longrightarrow>
   seedLoop (prices @ [p]) period i sm = seedLoop prices period i sm"
proof (induction prices period i sm rule: seedLoop.induct)
  case (1 prices period i sm)
  show ?case
  proof (cases "i < period")
    case True
    then have lt: "i < int (length prices)" using 1(2) by linarith
    show ?thesis
      using True 1(1)[OF True 1(2)]
      by (subst seedLoop.simps, subst (2) seedLoop.simps) (simp add: elemAt_append[OF lt])
  next
    case False
    then show ?thesis by (subst seedLoop.simps, subst (2) seedLoop.simps) simp
  qed
qed

lemma smoothLoop_append:
  "i \<le> int (length prices) \<Longrightarrow>
   smoothLoop (prices @ [p]) k i ema = emaUpdate k (smoothLoop prices k i ema) p"
proof (induction prices k i ema rule: smoothLoop.induct)
  case (1 prices k i ema)
  show ?case
  proof (cases "i < int (length prices)")
    case True
    have "smoothLoop (prices @ [p]) k i ema
          = smoothLoop (prices @ [p]) k (i + 1) (emaUpdate k ema (elemAt prices i))"
      using True by (subst smoothLoop.simps) (simp add: elemAt_append[OF True])
    also have "\<dots> = emaUpdate k (smoothLoop prices k (i + 1) (emaUpdate k ema (elemAt prices i))) p"
      using 1(1)[OF True] True by simp
    also have "\<dots> = emaUpdate k (smoothLoop prices k i ema) p"
      using True by (subst (2) smoothLoop.simps) simp
    finally show ?thesis .
  next
    case False
    then have eq: "i = int (length prices)" using 1(2) by simp
    have "smoothLoop (prices @ [p]) k i ema
          = smoothLoop (prices @ [p]) k (i + 1) (emaUpdate k ema p)"
      unfolding eq by (subst smoothLoop.simps) (simp add: elemAt_last)
    also have "\<dots> = emaUpdate k ema p"
      unfolding eq by (subst smoothLoop.simps) simp
    finally have l: "smoothLoop (prices @ [p]) k i ema = emaUpdate k ema p" .
    have r: "smoothLoop prices k i ema = ema"
      using False by (subst smoothLoop.simps) simp
    show ?thesis by (simp only: l r)
  qed
qed

text \<open>
  Claim C8. For every series \<open>S\<close>, every period \<open>P\<close> that \<open>S\<close> satisfies
  (\<open>P \<le> length S\<close>) and every further price \<open>p\<close>: \<open>calculateEMA\<close> on \<open>S\<close> with \<open>p\<close>
  appended is one update \<open>p * k + e * (1 - k)\<close>, \<open>k = 2 / (P + 1)\<close>, of its result \<open>e\<close> on
  \<open>S\<close>, in the arithmetic of the program.
\<close>

theorem calculateEMA_append:
  assumes "P \<le> int (length S)"
  shows "\<exists>e. calculateEMA S P = Number e
             \<and> calculateEMA (S @ [p]) P =
                 Number (js_add (js_mul p (js_div (Fin 2) (js_add (Fin (real_of_int P)) (Fin 1))))
                           (js_mul e (js_sub (Fin 1)
                              (js_div (Fin 2) (js_add (Fin (real_of_int P)) (Fin 1))))))"
  using assms
  by (simp add: calculateEMA_def Let_def seedLoop_append smoothLoop_append emaUpdate_def
        smoothing_def)

theorem calculateEMA_append_witness:
  "calculateEMA [Fin 1, Fin 2, Fin 3, Fin 4] 4 = Number (Fin (5 / 2))
   \<and> calculateEMA ([Fin 1, Fin 2, Fin 3, Fin 4] @ [Fin 10]) 4 = Number (Fin (11 / 2))
   \<and> calculateEMA ([Fin 1, Fin 2, Fin 3, Fin 4, Fin 5, Fin 6, Fin 7, Fin 8, Fin 9] @ [Fin 19]) 9
       = Number (Fin (2195504818343117 / 281474976710656))"
proof -
  have c: "calculateEMA [Fin 1, Fin 2, Fin 3, Fin 4] 4 = Number (Fin (5 / 2))"
    by (simp add: calculateEMA_eval fl_eval)
  have d: "calculateEMA [Fin 1, Fin 2, Fin 3, Fin 4, Fin 5, Fin 6, Fin 7, Fin 8, Fin 9] 9
           = Number (Fin 5)"
    by (simp add: calculateEMA_eval fl_eval)
  have h4: "(4::int) \<le> int (length [Fin 1, Fin 2, Fin 3, Fin 4])" by simp
  have h9: "(9::int) \<le> int (length [Fin 1, Fin 2, Fin 3, Fin 4, Fin 5, Fin 6, Fin 7, Fin 8, Fin 9])"
    by simp
  have u4: "calculateEMA ([Fin 1, Fin 2, Fin 3, Fin 4] @ [Fin 10]) 4 = Number (Fin (11 / 2))"
    using calculateEMA_append[OF h4, of "Fin 10"] c by (simp add: js_sub_def fl_eval)
  have u9: "calculateEMA ([Fin 1, Fin 2, Fin 3, Fin 4, Fin 5, Fin 6, Fin 7, Fin 8, Fin 9] @ [Fin 19]) 9
            = Number (Fin (2195504818343117 / 281474976710656))"
    using calculateEMA_append[OF h9, of "Fin 19"] d by (simp add: js_sub_def fl_eval)
  show ?thesis using c u4 u9 by simp
qed

section \<open>calculateEMA: a period that is not positive\<close>

lemma emaUpdate_NaN: "emaUpdate k NaN p = NaN"
  by (cases "js_mul p k"; cases k) (simp_all add: emaUpdate_def js_sub_def)

lemma smoothLoop_NaN: "smoothLoop prices k i NaN = NaN"
proof (induction prices k i "NaN" rule: smoothLoop.induct)
  case (1 prices k i)
  then show ?case
    by (subst smoothLoop.simps) (simp add: emaUpdate_NaN)
qed

lemma emaUpdate_undefined: "emaUpdate k ema NaN = NaN"
  by (simp add: emaUpdate_def)

lemma smoothLoop_negative:
  assumes "i < 0"
  shows "smoothLoop prices k i ema = NaN"
proof -
  have "elemAt prices i = NaN" using assms by (simp add: elemAt_def)
  moreover have "i < int (length prices)" using assms by linarith
  ultimately show ?thesis
    by (subst smoothLoop.simps) (simp add: emaUpdate_undefined smoothLoop_NaN)
qed

text \<open>
  Claim C9. The guard \<open>prices.length < period\<close> is false for every period that is not
  positive, so for such a period and every series, the empty one included,
  \<open>calculateEMA\<close> does not return \<open>null\<close>: it goes on from the seed \<open>0 / period\<close>, which
  for \<open>period = 0\<close> is the division \<open>0 / 0\<close>. The number it returns is NaN: for
  \<open>period = 0\<close> the seed is NaN, and a negative period makes the second loop read
  \<open>prices[period]\<close>, which is \<open>undefined\<close>.
\<close>

theorem calculateEMA_nonpositive_period:
  assumes "period \<le> 0"
  shows "calculateEMA prices period \<noteq> Null
         \<and> calculateEMA prices period =
             Number (smoothLoop prices (smoothing period) period
                       (js_div (Fin 0) (Fin (real_of_int period))))
         \<and> calculateEMA prices period = Number NaN"
proof -
  have s: "seedLoop prices period 0 (Fin 0) = Fin 0"
    using assms by (subst seedLoop.simps) simp
  have g: "\<not> int (length prices) < period" using assms by linarith
  have c: "calculateEMA prices period =
             Number (smoothLoop prices (smoothing period) period
                       (js_div (Fin 0) (Fin (real_of_int period))))"
    using g by (simp add: calculateEMA_def Let_def s)
  have n: "smoothLoop prices (smoothing period) period
             (js_div (Fin 0) (Fin (real_of_int period))) = NaN"
  proof (cases "period = 0")
    case True
    then show ?thesis by (simp add: signedInf_def smoothLoop_NaN)
  next
    case False
    then have "period < 0" using assms by simp
    then show ?thesis by (rule smoothLoop_negative)
  qed
  show ?thesis using c n by simp
qed

theorem calculateEMA_nonpositive_period_witness:
  "calculateEMA [] 0 = Number NaN \<and> calculateEMA [Fin 1, Fin 2] 0 = Number NaN
   \<and> calculateEMA [Fin 1, Fin 2] (- 1) = Number NaN"
proof -
  have z: "(0::int) \<le> 0" and m: "(- 1::int) \<le> 0" by simp_all
  show ?thesis
    using calculateEMA_nonpositive_period[OF z, of "[]"]
          calculateEMA_nonpositive_period[OF z, of "[Fin 1, Fin 2]"]
          calculateEMA_nonpositive_period[OF m, of "[Fin 1, Fin 2]"]
    by blast
qed

section \<open>The EMA values: absent exactly for the periods the series does not reach\<close>

lemma emaValuesLoop_lookup:
  "emaValuesLoop prices periods m P =
     (if P \<in> set periods
      then Some (if P \<le> int (length prices) then calculateEMA prices P else Null)
      else m P)"
  by (induction periods arbitrary: m) auto

lemma calculateEMA_present:
  "P \<le> int (length prices) \<Longrightarrow> \<exists>e. calculateEMA prices P = Number e"
  by (simp add: calculateEMA_def Let_def)

text \<open>
  Claim C7. For every series of prices and every period \<open>P\<close> of \<open>emaPeriods\<close>, the entry
  that \<open>fetchMarketData\<close> stores for \<open>P\<close> is \<open>null\<close> if and only if the series has fewer
  than \<open>P\<close> prices; every period that the series reaches gets a number.
\<close>

theorem emaValues_absent_iff:
  assumes "P \<in> set emaPeriods"
  shows "(\<exists>v. emas (computeEmaResults prices) P = Some v
              \<and> (v = Null \<longleftrightarrow> int (length prices) < P))
         \<and> (P \<le> int (length prices) \<longrightarrow>
              (\<exists>e. emas (computeEmaResults prices) P = Some (Number e)))"
proof (cases "P \<le> int (length prices)")
  case True
  obtain e where "calculateEMA prices P = Number e"
    using calculateEMA_present[OF True] by blast
  then show ?thesis
    using assms True by (simp add: computeEmaResults_def emaValuesLoop_lookup)
next
  case False
  then show ?thesis
    using assms by (simp add: computeEmaResults_def emaValuesLoop_lookup)
qed

theorem emaValues_absent_iff_witness:
  "emas (computeEmaResults (map Fin [1, 2, 3, 4, 5, 6, 7, 8])) 7 = Some (Number (Fin 5))
   \<and> emas (computeEmaResults (map Fin [1, 2, 3, 4, 5, 6, 7, 8])) 9 = Some Null"
proof -
  have a: "(7::int) \<in> set emaPeriods" and b: "(9::int) \<in> set emaPeriods"
    by (simp_all add: emaPeriods_def)
  have c: "calculateEMA (map Fin [1, 2, 3, 4, 5, 6, 7, 8]) 7 = Number (Fin 5)"
    by (simp add: calculateEMA_eval fl_eval)
  have d: "emas (computeEmaResults (map Fin [1, 2, 3, 4, 5, 6, 7, 8])) 7
           = Some (calculateEMA (map Fin [1, 2, 3, 4, 5, 6, 7, 8]) 7)"
    by (simp add: computeEmaResults_def emaPeriods_def)
  show ?thesis
    using emaValues_absent_iff[OF a, of "map Fin [1, 2, 3, 4, 5, 6, 7, 8]"]
          emaValues_absent_iff[OF b, of "map Fin [1, 2, 3, 4, 5, 6, 7, 8]"] c d
    by auto
qed

section \<open>getPricePosition\<close>

text \<open>
  Claim C6, amended. For every real price and every EMA value that is \<open>null\<close> or a real
  number other than 0: \<open>getPricePosition\<close> returns \<open>unknown\<close> exactly for \<open>null\<close>, and for
  a number it returns \<open>above\<close> when the price is greater, \<open>below\<close> when it is less and
  \<open>equal\<close> otherwise.
\<close>

theorem getPricePosition_cases:
  "getPricePosition (Fin price) Null = ''unknown''
   \<and> (e \<noteq> 0 \<longrightarrow>
        getPricePosition (Fin price) (Number (Fin e)) \<noteq> ''unknown''
        \<and> getPricePosition (Fin price) (Number (Fin e)) =
            (if e < price then ''above'' else if price < e then ''below'' else ''equal''))"
  by (simp add: getPricePosition_def)

theorem getPricePosition_cases_witness:
  "getPricePosition (Fin 105) (Number (Fin 100)) = ''above''
   \<and> getPricePosition (Fin 95) (Number (Fin 100)) = ''below''
   \<and> getPricePosition (Fin 100) (Number (Fin 100)) = ''equal''
   \<and> getPricePosition (Fin 100) Null = ''unknown''"
  using getPricePosition_cases[of 105 100] getPricePosition_cases[of 95 100]
        getPricePosition_cases[of 100 100]
  by simp

text \<open>
  The claim as stated fails at an EMA of 0: the guard \<open>!ema\<close> takes it for a missing
  value.
\<close>

theorem getPricePosition_zero_unknown:
  "getPricePosition (Fin 5) (Number (Fin 0)) = ''unknown''"
  by (simp add: getPricePosition_def)

section \<open>The signal summary\<close>




section \<open>fetchWithRetry: one pass of the loop\<close>

lemma fetchLoop_step:
  "int i < retries \<Longrightarrow>
   fetchLoop toNumber network url retries backoff i =
     (case attempt toNumber (network i) url retries backoff i of
        (evs, Continue) \<Rightarrow>
          (case fetchLoop toNumber network url retries backoff (i + 1) of
             (evs', c) \<Rightarrow> (evs @ evs', c))
      | (evs, Return body) \<Rightarrow> (evs, Returned body)
      | (evs, Throw err) \<Rightarrow> (evs, Thrown err))"
  by (subst fetchLoop.simps) simp

lemma fetchLoop_done:
  "\<not> int i < retries \<Longrightarrow>
   fetchLoop toNumber network url retries backoff i = ([], ReturnedUndefined)"
  by (subst fetchLoop.simps) simp

lemma attempt_429:
  "status r = 429 \<Longrightarrow>
   attempt toNumber (Resolved r) url retries backoff i =
     ([Fetch url,
       Delay (toMs (retryAfterOr toNumber (retryAfter r) (backoffDelay backoff i)))],
      Continue)"
  by (simp add: attempt_def tryBlock_def Let_def)

lemma attempt_http_error:
  "status r \<noteq> 429 \<Longrightarrow> \<not> ok r \<Longrightarrow>
   attempt toNumber (Resolved r) url retries backoff i =
     (if int i = retries - 1
      then ([Fetch url], Throw (Error (''HTTP '' @ showNat (status r) @ '': '' @ statusText r)))
      else ([Fetch url, Delay (backoffDelay backoff i)], Continue))"
  by (simp add: attempt_def tryBlock_def)

text \<open>
  Claim C4. On a response with status 429 and no \<open>Retry-After\<close> header in pass \<open>i\<close>, the
  computed value \<open>backoff * 2 ^ i\<close> is multiplied by 1000 like a header value: the pass
  issues its request, awaits \<open>backoff * 2 ^ i * 1000\<close> ms and goes on with pass \<open>i + 1\<close>.
\<close>

theorem rate_limit_fallback_delay:
  assumes "int i < retries" and "network i = Resolved r"
    and "status r = 429" and "retryAfter r = None"
  shows "fetchLoop toNumber network url retries backoff i =
           (case fetchLoop toNumber network url retries backoff (i + 1) of
              (evs, c) \<Rightarrow> ([Fetch url, Delay (Fin (backoff * 2 ^ i * 1000))] @ evs, c))"
  using assms
  by (simp add: fetchLoop_step attempt_429 retryAfterOr_def backoffDelay_def split: prod.splits)

theorem rate_limit_fallback_delay_witness:
  "fetchLoop digitsToNumber
     (\<lambda>i. Resolved \<lparr>status = 429, statusText = ''Too Many Requests'', retryAfter = None,
                      json = Inr ()\<rparr>) ''u'' 3 1000 2
   = ([Fetch ''u'', Delay (Fin 4000000)], ReturnedUndefined)"
proof -
  let ?r = "\<lparr>status = 429, statusText = ''Too Many Requests'', retryAfter = None, json = Inr ()\<rparr>"
  have a: "int 2 < 3" by simp
  have e: "fetchLoop digitsToNumber (\<lambda>i. Resolved ?r) ''u'' 3 1000 (2 + 1) = ([], ReturnedUndefined)"
    by (simp add: fetchLoop.simps)
  show ?thesis
    using rate_limit_fallback_delay[of 2 3 "\<lambda>i. Resolved ?r" ?r digitsToNumber "''u''" 1000, OF a] e
    by simp
qed

text \<open>
  Claim C3, amended. On a response in pass \<open>i\<close> whose status is neither 429 nor a
  success: in the last pass (\<open>i = retries - 1\<close>) \<open>fetchWithRetry\<close> throws an error with
  the message \<open>HTTP <status>: <statusText>\<close>, without a delay or a further request; in an
  earlier pass the error is caught, the pass awaits \<open>backoff * 2 ^ i\<close> ms and the loop goes
  on with the next request.
\<close>

theorem http_error_retry_policy:
  assumes "int i < retries" and "network i = Resolved r"
    and "status r \<noteq> 429" and "\<not> ok r"
  shows "fetchLoop toNumber network url retries backoff i =
           (if int i = retries - 1
            then ([Fetch url],
                  Thrown (Error (''HTTP '' @ showNat (status r) @ '': '' @ statusText r)))
            else (case fetchLoop toNumber network url retries backoff (i + 1) of
                    (evs, c) \<Rightarrow> ([Fetch url, Delay (Fin (backoff * 2 ^ i))] @ evs, c)))"
  using assms
  by (simp add: fetchLoop_step attempt_http_error backoffDelay_def split: prod.splits)

theorem http_error_retry_policy_witness:
  "fetchLoop digitsToNumber
     (\<lambda>i. Resolved \<lparr>status = 500, statusText = ''Internal Server Error'', retryAfter = None,
                      json = Inr ()\<rparr>) ''u'' 3 1000 1
   = ([Fetch ''u'', Delay (Fin 2000), Fetch ''u''],
      Thrown (Error ''HTTP 500: Internal Server Error''))"
proof -
  let ?r = "\<lparr>status = 500, statusText = ''Internal Server Error'', retryAfter = None, json = Inr ()\<rparr>"
  have a1: "int 1 < 3" and a2: "int 2 < 3" by simp_all
  have n: "\<not> ok ?r" and s: "status ?r \<noteq> 429" by (simp_all add: ok_def)
  have sh: "showNat 500 = ''500''" by (simp add: showNat.simps)
  have last: "fetchLoop digitsToNumber (\<lambda>i. Resolved ?r) ''u'' 3 1000 2
              = ([Fetch ''u''], Thrown (Error ''HTTP 500: Internal Server Error''))"
    using http_error_retry_policy[of 2 3 "\<lambda>i. Resolved ?r" ?r digitsToNumber "''u''" 1000, OF a2 refl s n]
          sh
    by simp
  show ?thesis
    using http_error_retry_policy[of 1 3 "\<lambda>i. Resolved ?r" ?r digitsToNumber "''u''" 1000, OF a1 refl s n]
          last
    by (simp add: numeral_2_eq_2)
qed

text \<open>
  The claim as stated fails: a status 500 in the first pass is followed by a delay of
  1000 ms and a second request, whose body the call returns.
\<close>

theorem http_error_is_retried:
  "fetchWithRetry digitsToNumber
     (\<lambda>i. if i = 0
           then Resolved \<lparr>status = 500, statusText = ''Internal Server Error'',
                           retryAfter = None, json = Inr 0\<rparr>
           else Resolved \<lparr>status = 200, statusText = ''OK'', retryAfter = None,
                           json = Inr (42::nat)\<rparr>) ''u'' 3 1000
   = ([Fetch ''u'', Delay (Fin 1000), Fetch ''u''], Returned 42)"
  by (simp add: fetchWithRetry_def fetchLoop.simps attempt_def tryBlock_def ok_def backoffDelay_def)

section \<open>fetchWithRetry: a server that always answers 429\<close>

text \<open>
  Claim C2. When every response has status 429 and the header \<open>Retry-After: 2\<close>, the call
  awaits 2000 ms after each request; the claim says that it then throws when the passes
  are used up. The program, with three passes, leaves the loop and returns \<open>undefined\<close>.
\<close>

theorem fetchWithRetry_always_429:
  "fetchWithRetry digitsToNumber
     (\<lambda>i. Resolved \<lparr>status = 429, statusText = ''Too Many Requests'',
                      retryAfter = Some ''2'', json = Inr ()\<rparr>) ''u'' 3 1000
   = ([Fetch ''u'', Delay (Fin 2000), Fetch ''u'', Delay (Fin 2000),
       Fetch ''u'', Delay (Fin 2000)], ReturnedUndefined)"
  by (simp add: fetchWithRetry_def fetchLoop.simps attempt_def tryBlock_def retryAfterOr_def
        digitsToNumber_def)

text \<open>The same for every number of passes and every header: no such run throws.\<close>

lemma always_429_never_throws:
  "\<forall>j. \<exists>r. network j = Resolved r \<and> status r = 429 \<Longrightarrow>
   snd (fetchLoop toNumber network url retries backoff i) = ReturnedUndefined"
proof (induction toNumber network url retries backoff i rule: fetchLoop.induct)
  case (1 toNumber network url retries backoff i)
  show ?case
  proof (cases "int i < retries")
    case True
    obtain r where r: "network i = Resolved r" "status r = 429" using 1(2) by blast
    have a: "attempt toNumber (network i) url retries backoff i =
          ([Fetch url, Delay (toMs (retryAfterOr toNumber (retryAfter r) (backoffDelay backoff i)))], Continue)"
      using r by (simp add: attempt_429)
    show ?thesis
      using 1(1)[OF True a[symmetric] refl 1(2)] True a
      by (auto simp: fetchLoop_step split: prod.splits)
  next
    case False
    then show ?thesis by (simp add: fetchLoop_done)
  qed
qed

section \<open>fetchWithRetry: the number of requests and delays\<close>

lemma attempt_counts:
  "length (filter isFetch (fst (attempt toNumber out url retries backoff i))) = 1
   \<and> length (filter isDelay (fst (attempt toNumber out url retries backoff i))) \<le> 1"
  by (simp add: attempt_def tryBlock_def Let_def split: outcome.splits sum.splits)

lemma fetchLoop_counts:
  "int (length (filter isFetch (fst (fetchLoop toNumber network url retries backoff i))))
     \<le> max 0 (retries - int i)
   \<and> int (length (filter isDelay (fst (fetchLoop toNumber network url retries backoff i))))
     \<le> max 0 (retries - int i)"
proof (induction toNumber network url retries backoff i rule: fetchLoop.induct)
  case (1 toNumber network url retries backoff i)
  show ?case
  proof (cases "int i < retries")
    case True
    obtain evs ctl where a: "attempt toNumber (network i) url retries backoff i = (evs, ctl)"
      by (cases "attempt toNumber (network i) url retries backoff i")
    have c: "length (filter isFetch evs) = 1" "length (filter isDelay evs) \<le> 1"
      using attempt_counts[of toNumber "network i" url retries backoff i] a by simp_all
    show ?thesis
    proof (cases ctl)
      case Continue
      obtain evs' c' where f: "fetchLoop toNumber network url retries backoff (i + 1) = (evs', c')"
        by (cases "fetchLoop toNumber network url retries backoff (i + 1)")
      have ih: "int (length (filter isFetch evs')) \<le> max 0 (retries - int (i + 1))"
               "int (length (filter isDelay evs')) \<le> max 0 (retries - int (i + 1))"
        using 1[OF True a[symmetric] Continue] f by simp_all
      have "fetchLoop toNumber network url retries backoff i = (evs @ evs', c')"
        using True a Continue f by (simp add: fetchLoop_step)
      then show ?thesis using c ih True by simp
    next
      case (Return body)
      then have "fetchLoop toNumber network url retries backoff i = (evs, Returned body)"
        using True a by (simp add: fetchLoop_step)
      then show ?thesis using c True by simp
    next
      case (Throw err)
      then have "fetchLoop toNumber network url retries backoff i = (evs, Thrown err)"
        using True a by (simp add: fetchLoop_step)
      then show ?thesis using c True by simp
    qed
  next
    case False
    then show ?thesis by (simp add: fetchLoop_done)
  qed
qed

text \<open>
  Claim C10. For every url, every \<open>retries \<ge> 1\<close> and every backoff, whatever the requests
  settle to, a run of \<open>fetchWithRetry\<close> issues at most \<open>retries\<close> requests and awaits at
  most \<open>retries\<close> delays before it returns or throws. The loop is a total function (its
  termination is proved with its definition), so every run ends.
\<close>

theorem fetchWithRetry_bounded:
  assumes "1 \<le> retries"
  shows "int (length (filter isFetch (fst (fetchWithRetry toNumber network url retries backoff))))
           \<le> retries
         \<and> int (length (filter isDelay (fst (fetchWithRetry toNumber network url retries backoff))))
           \<le> retries"
  using assms fetchLoop_counts[of toNumber network url retries backoff 0]
  by (simp add: fetchWithRetry_def)

theorem fetchWithRetry_bounded_witness:
  "(1::int) \<le> 3
   \<and> int (length (filter isFetch (fst (fetchWithRetry digitsToNumber
         (\<lambda>i. Rejected (TypeError ''Failed to fetch'') :: unit outcome) ''u'' 3 1000)))) \<le> 3
   \<and> int (length (filter isDelay (fst (fetchWithRetry digitsToNumber
         (\<lambda>i. Rejected (TypeError ''Failed to fetch'') :: unit outcome) ''u'' 3 1000)))) \<le> 3"
proof -
  have h: "(1::int) \<le> 3" by simp
  show ?thesis
    using h fetchWithRetry_bounded[OF h, of digitsToNumber
            "\<lambda>i. Rejected (TypeError ''Failed to fetch'') :: unit outcome" "''u''" 1000]
    by simp
qed

text \<open>A run in which every request fails: three requests, two delays, the error thrown.\<close>

lemma network_failure_run:
  "fetchWithRetry digitsToNumber
     (\<lambda>i. Rejected (TypeError ''Failed to fetch'') :: unit outcome) ''u'' 3 1000
   = ([Fetch ''u'', Delay (Fin 1000), Fetch ''u'', Delay (Fin 2000), Fetch ''u''],
      Thrown (TypeError ''Failed to fetch''))"
  by (simp add: fetchWithRetry_def fetchLoop.simps attempt_def tryBlock_def backoffDelay_def)

end
